theory Spec2Isabelle
  imports Main
begin

section \<open>Python values\<close>

text \<open>
  A Python \<open>str\<close> is modelled as a \<open>string\<close>: the list of the bytes of its UTF-8
  encoding. Request URLs and header names are ASCII on the wire, where a byte is a
  character. A \<open>dict\<close> is an association list in insertion order whose keys are
  pairwise different; \<open>d[k] = v\<close> replaces the value of a key in place or appends a new
  item.
\<close>

type_synonym ('k, 'v) dict = "('k \<times> 'v) list"

fun dict_set :: "'k \<Rightarrow> 'v \<Rightarrow> ('k, 'v) dict \<Rightarrow> ('k, 'v) dict" where
  "dict_set k v [] = [(k, v)]"
| "dict_set k v ((k', v') # d) =
     (if k' = k then (k', v) # d else (k', v') # dict_set k v d)"

definition dict_get :: "('k, 'v) dict \<Rightarrow> 'k \<Rightarrow> 'v option" where
  "dict_get d k = map_of d k"

definition dict_keys :: "('k, 'v) dict \<Rightarrow> 'k list" where
  "dict_keys d = map fst d"

definition dict_update :: "('k, 'v) dict \<Rightarrow> ('k, 'v) dict \<Rightarrow> ('k, 'v) dict" where
  "dict_update d e = fold (\<lambda>(k, v) acc. dict_set k v acc) e d"

definition lower_char :: "char \<Rightarrow> char" where
  "lower_char c =
     (let n = (of_char c :: nat) in if 65 \<le> n \<and> n \<le> 90 then char_of (n + 32) else c)"

definition lower :: "string \<Rightarrow> string" where
  "lower s = map lower_char s"

definition startswith :: "string \<Rightarrow> string \<Rightarrow> bool" where
  "startswith s p = (take (length p) s = p)"

definition lstrip :: "string \<Rightarrow> string \<Rightarrow> string" where
  "lstrip s chars = dropWhile (\<lambda>c. c \<in> set chars) s"

definition replace_char :: "char \<Rightarrow> char \<Rightarrow> string \<Rightarrow> string" where
  "replace_char a b s = map (\<lambda>c. if c = a then b else c) s"

fun join :: "string \<Rightarrow> string list \<Rightarrow> string" where
  "join sep [] = []"
| "join sep [x] = x"
| "join sep (x # y # ys) = x @ sep @ join sep (y # ys)"

text \<open>\<open>s.split(sep)\<close> for a one-character separator: never empty, \<open>''.split(sep) == ['']\<close>.\<close>

fun str_split :: "char \<Rightarrow> string \<Rightarrow> string list" where
  "str_split sep [] = [[]]"
| "str_split sep (c # cs) =
     (if c = sep then [] # str_split sep cs
      else (case str_split sep cs of
              [] \<Rightarrow> [[c]]
            | w # ws \<Rightarrow> (c # w) # ws))"

text \<open>\<open>s.partition(sep)\<close>: the text before the first separator, whether there is one,
  and the text after it.\<close>

definition partition_str :: "char \<Rightarrow> string \<Rightarrow> string \<times> bool \<times> string" where
  "partition_str sep s =
     (takeWhile (\<lambda>c. c \<noteq> sep) s, sep \<in> set s, drop 1 (dropWhile (\<lambda>c. c \<noteq> sep) s))"

text \<open>\<open>str(n)\<close> for a non-negative integer.\<close>

definition digit_char :: "nat \<Rightarrow> char" where
  "digit_char d = char_of (48 + d)"

function str_nat :: "nat \<Rightarrow> string" where
  "str_nat n = (if n < 10 then [digit_char n] else str_nat (n div 10) @ [digit_char (n mod 10)])"
  by pat_completeness auto
termination
  by (relation "measure id") auto

declare str_nat.simps [simp del]

section \<open>The library functions of \<open>urllib.parse\<close>\<close>

text \<open>
  The relay handler calls \<open>urlparse\<close>, \<open>parse_qs\<close>, \<open>urlencode\<close> and \<open>urlunparse\<close> of the
  Python standard library. They are modelled after CPython 3.11.
\<close>

definition hex_val :: "char \<Rightarrow> nat option" where
  "hex_val c =
     (let n = (of_char c :: nat) in
      if 48 \<le> n \<and> n \<le> 57 then Some (n - 48)
      else if 65 \<le> n \<and> n \<le> 70 then Some (n - 55)
      else if 97 \<le> n \<and> n \<le> 102 then Some (n - 87)
      else None)"

definition hex_digit :: "nat \<Rightarrow> char" where
  "hex_digit d = (if d < 10 then char_of (48 + d) else char_of (55 + d))"

text \<open>\<open>unquote_to_bytes\<close>: every \<open>%xx\<close> with two hexadecimal digits becomes the byte
  \<open>xx\<close>; any other \<open>%\<close> stays.\<close>

fun unquote_to_bytes :: "string \<Rightarrow> string" where
  "unquote_to_bytes (c # h1 # h2 # rest) =
     (if c = CHR ''%'' then
        (case (hex_val h1, hex_val h2) of
           (Some a, Some b) \<Rightarrow> char_of (16 * a + b) # unquote_to_bytes rest
         | _ \<Rightarrow> c # unquote_to_bytes (h1 # h2 # rest))
      else c # unquote_to_bytes (h1 # h2 # rest))"
| "unquote_to_bytes (c # cs) = c # unquote_to_bytes cs"
| "unquote_to_bytes [] = []"

text \<open>
  \<open>bytes.decode('utf-8', errors='replace')\<close>, with its result written in UTF-8 again: a
  well-formed sequence of one to four bytes is kept, and every ill-formed piece becomes
  one U+FFFD, whose encoding is \<open>EF BF BD\<close>. As in CPython, an ill-formed piece is a byte
  that cannot start a sequence, or the bytes of a sequence up to the first one that
  cannot continue it, or a sequence that the end of the input cuts short. A second byte
  continues its first byte when it is a continuation byte and the two do not begin an
  overlong form, a surrogate or a code point above U+10FFFF.
\<close>

definition is_ascii :: "char \<Rightarrow> bool" where
  "is_ascii c \<longleftrightarrow> (of_char c :: nat) < 128"

definition is_continuation :: "char \<Rightarrow> bool" where
  "is_continuation c \<longleftrightarrow> 128 \<le> (of_char c :: nat) \<and> (of_char c :: nat) < 192"

definition valid_second :: "char \<Rightarrow> char \<Rightarrow> bool" where
  "valid_second c c2 \<longleftrightarrow>
     is_continuation c2
     \<and> \<not> (c = CHR 0xE0 \<and> (of_char c2 :: nat) < 0xA0)
     \<and> \<not> (c = CHR 0xED \<and> 0xA0 \<le> (of_char c2 :: nat))
     \<and> \<not> (c = CHR 0xF0 \<and> (of_char c2 :: nat) < 0x90)
     \<and> \<not> (c = CHR 0xF4 \<and> 0x90 \<le> (of_char c2 :: nat))"

definition replacement :: string where
  "replacement = [CHR 0xEF, CHR 0xBF, CHR 0xBD]"

fun utf8_replace :: "string \<Rightarrow> string" where
  "utf8_replace [] = []"
| "utf8_replace (c # cs) =
    (if (of_char c :: nat) < 0x80 then c # utf8_replace cs
     else if (of_char c :: nat) < 0xC2 \<or> 0xF5 \<le> (of_char c :: nat) then replacement @ utf8_replace cs
     else (case cs of
        [] \<Rightarrow> replacement
      | c2 # cs2 \<Rightarrow>
         if \<not> valid_second c c2 then replacement @ utf8_replace cs
         else if (of_char c :: nat) < 0xE0 then c # c2 # utf8_replace cs2
         else (case cs2 of
            [] \<Rightarrow> replacement
          | c3 # cs3 \<Rightarrow>
             if \<not> is_continuation c3 then replacement @ utf8_replace cs2
             else if (of_char c :: nat) < 0xF0 then c # c2 # c3 # utf8_replace cs3
             else (case cs3 of
                [] \<Rightarrow> replacement
              | c4 # cs4 \<Rightarrow>
                 if \<not> is_continuation c4 then replacement @ utf8_replace cs3
                 else c # c2 # c3 # c4 # utf8_replace cs4))))"

text \<open>A byte list is the encoding of a Python \<open>str\<close> exactly when decoding it replaces
  nothing.\<close>

definition utf8_valid :: "string \<Rightarrow> bool" where
  "utf8_valid s \<longleftrightarrow> utf8_replace s = s"

text \<open>
  \<open>unquote(string)\<close> returns a string without \<open>%\<close> as it is. Otherwise it cuts the
  string into its runs of ASCII characters and the runs of other characters between
  them; an ASCII run is unquoted to bytes and the bytes are decoded, each run for itself,
  and the other runs stay.
\<close>

function decode_runs :: "string \<Rightarrow> string" where
  "decode_runs [] = []"
| "decode_runs (c # cs) =
     (if is_ascii c then
        utf8_replace (unquote_to_bytes (takeWhile is_ascii (c # cs)))
        @ decode_runs (dropWhile is_ascii (c # cs))
      else takeWhile (\<lambda>x. \<not> is_ascii x) (c # cs)
        @ decode_runs (dropWhile (\<lambda>x. \<not> is_ascii x) (c # cs)))"
  by pat_completeness auto
termination
  by (relation "measure length") (auto simp: length_dropWhile_le le_imp_less_Suc)

definition unquote :: "string \<Rightarrow> string" where
  "unquote s = (if CHR ''%'' \<notin> set s then s else decode_runs s)"

definition unquote_plus :: "string \<Rightarrow> string" where
  "unquote_plus s = unquote (replace_char CHR ''+'' CHR '' '' s)"

definition is_always_safe :: "char \<Rightarrow> bool" where
  "is_always_safe c =
     (let n = (of_char c :: nat) in
      (65 \<le> n \<and> n \<le> 90) \<or> (97 \<le> n \<and> n \<le> 122) \<or> (48 \<le> n \<and> n \<le> 57)
      \<or> c \<in> set ''_.-~'')"

definition quoter :: "string \<Rightarrow> char \<Rightarrow> string" where
  "quoter safe c =
     (if is_always_safe c \<or> c \<in> set safe then [c]
      else [CHR ''%'', hex_digit ((of_char c :: nat) div 16), hex_digit ((of_char c :: nat) mod 16)])"

definition quote :: "string \<Rightarrow> string \<Rightarrow> string" where
  "quote s safe = concat (map (quoter (filter (\<lambda>c. (of_char c :: nat) < 128) safe)) s)"

definition quote_plus :: "string \<Rightarrow> string" where
  "quote_plus s =
     (if CHR '' '' \<notin> set s then quote s []
      else replace_char CHR '' '' CHR ''+'' (quote s '' ''))"

text \<open>\<open>urlencode(query)\<close> on string pairs, and \<open>urlencode(query, doseq=True)\<close> on a
  dictionary of lists, where every element of a list becomes a parameter of its own.\<close>

definition urlencode :: "(string \<times> string) list \<Rightarrow> string" where
  "urlencode query = join ''&'' (map (\<lambda>(k, v). quote_plus k @ ''='' @ quote_plus v) query)"

definition urlencode_doseq :: "(string, string list) dict \<Rightarrow> string" where
  "urlencode_doseq query =
     join ''&'' (concat (map (\<lambda>(k, v). map (\<lambda>elt. quote_plus k @ ''='' @ quote_plus elt) v) query))"

text \<open>\<open>parse_qsl\<close> with its defaults: a field that is empty, or whose value is empty, is
  skipped (\<open>keep_blank_values=False\<close>), and nothing is rejected (\<open>strict_parsing=False\<close>).\<close>

definition parse_qsl :: "string \<Rightarrow> (string \<times> string) list" where
  "parse_qsl qs =
     (if qs = [] then []
      else concat (map (\<lambda>name_value.
             if name_value \<noteq> [] then
               (case partition_str CHR ''='' name_value of
                  (name, has_eq, value) \<Rightarrow>
                    if value \<noteq> [] then [(unquote_plus name, unquote_plus value)] else [])
             else [])
           (str_split CHR ''&'' qs)))"

definition parse_qs :: "string \<Rightarrow> (string, string list) dict" where
  "parse_qs qs =
     fold (\<lambda>(name, value) parsed_result.
             case dict_get parsed_result name of
               Some vs \<Rightarrow> dict_set name (vs @ [value]) parsed_result
             | None \<Rightarrow> dict_set name [value] parsed_result)
          (parse_qsl qs) []"

datatype error = ValueError

definition uses_netloc :: "string list" where
  "uses_netloc = ['''', ''ftp'', ''http'', ''gopher'', ''nntp'', ''telnet'',
     ''imap'', ''wais'', ''file'', ''mms'', ''https'', ''shttp'',
     ''snews'', ''prospero'', ''rtsp'', ''rtsps'', ''rtspu'', ''rsync'',
     ''svn'', ''svn+ssh'', ''sftp'', ''nfs'', ''git'', ''git+ssh'',
     ''ws'', ''wss'']"

definition uses_params :: "string list" where
  "uses_params = ['''', ''ftp'', ''hdl'', ''prospero'', ''http'', ''imap'',
     ''https'', ''shttp'', ''rtsp'', ''rtsps'', ''rtspu'', ''sip'',
     ''sips'', ''mms'', ''sftp'', ''tel'']"

definition is_ascii_alpha :: "char \<Rightarrow> bool" where
  "is_ascii_alpha c =
     (let n = (of_char c :: nat) in (65 \<le> n \<and> n \<le> 90) \<or> (97 \<le> n \<and> n \<le> 122))"

definition is_scheme_char :: "char \<Rightarrow> bool" where
  "is_scheme_char c =
     (is_ascii_alpha c \<or> (48 \<le> (of_char c :: nat) \<and> (of_char c :: nat) \<le> 57) \<or> c \<in> set ''+-.'')"

text \<open>The scheme is split off at the first colon when the text before it is not empty,
  starts with an ASCII letter and consists of scheme characters.\<close>

definition split_scheme :: "string \<Rightarrow> string \<times> string" where
  "split_scheme url =
     (let pre = takeWhile (\<lambda>c. c \<noteq> CHR '':'') url in
      case url of
        [] \<Rightarrow> ([], url)
      | c0 # _ \<Rightarrow>
          if CHR '':'' \<in> set url \<and> pre \<noteq> [] \<and> is_ascii_alpha c0 \<and> list_all is_scheme_char pre
          then (lower pre, drop (length pre + 1) url)
          else ([], url))"

definition splitnetloc :: "string \<Rightarrow> string \<times> string" where
  "splitnetloc url =
     (takeWhile (\<lambda>c. c \<notin> set ''/?#'') (drop 2 url), dropWhile (\<lambda>c. c \<notin> set ''/?#'') (drop 2 url))"

text \<open>
  \<open>urlsplit\<close> raises \<open>ValueError\<close> on an authority with one square bracket and not the
  other. An authority with both brackets is checked with the \<open>ipaddress\<close> module, and
  one with a non-ASCII character under NFKC normalisation; these two library checks are
  the parameter \<open>host_check\<close>. An ASCII authority without brackets is accepted.
\<close>

definition netloc_accepted :: "(string \<Rightarrow> bool) \<Rightarrow> string \<Rightarrow> bool" where
  "netloc_accepted host_check nl =
     (if (CHR ''['' \<in> set nl) \<noteq> (CHR '']'' \<in> set nl) then False
      else if CHR ''['' \<in> set nl \<or> (\<exists>c \<in> set nl. 128 \<le> (of_char c :: nat)) then host_check nl
      else True)"

definition urlsplit ::
  "(string \<Rightarrow> bool) \<Rightarrow> string \<Rightarrow> error + (string \<times> string \<times> string \<times> string \<times> string)" where
  "urlsplit host_check url0 =
     (let url1 = dropWhile (\<lambda>c. (of_char c :: nat) \<le> 32) url0;
          url2 = filter (\<lambda>c. c \<notin> {CHR 0x09, CHR 0x0D, CHR 0x0A}) url1;
          (scheme, url3) = split_scheme url2;
          (netloc, url4) = (if take 2 url3 = ''//'' then splitnetloc url3 else ([], url3));
          (url5, fragment) =
            (if CHR ''#'' \<in> set url4
             then (takeWhile (\<lambda>c. c \<noteq> CHR ''#'') url4, drop 1 (dropWhile (\<lambda>c. c \<noteq> CHR ''#'') url4))
             else (url4, []));
          (url6, query) =
            (if CHR ''?'' \<in> set url5
             then (takeWhile (\<lambda>c. c \<noteq> CHR ''?'') url5, drop 1 (dropWhile (\<lambda>c. c \<noteq> CHR ''?'') url5))
             else (url5, []))
      in if netloc_accepted host_check netloc
         then Inr (scheme, netloc, url6, query, fragment)
         else Inl ValueError)"

text \<open>\<open>_splitparams\<close> is called on a text that contains a semicolon; it splits the last
  path segment at its first semicolon.\<close>

definition splitparams :: "string \<Rightarrow> string \<times> string" where
  "splitparams url =
     (if CHR ''/'' \<in> set url then
        (let last_seg = rev (takeWhile (\<lambda>c. c \<noteq> CHR ''/'') (rev url));
             front = take (length url - length last_seg) url
         in if CHR '';'' \<in> set last_seg
            then (front @ takeWhile (\<lambda>c. c \<noteq> CHR '';'') last_seg,
                  drop 1 (dropWhile (\<lambda>c. c \<noteq> CHR '';'') last_seg))
            else (url, []))
      else (takeWhile (\<lambda>c. c \<noteq> CHR '';'') url, drop 1 (dropWhile (\<lambda>c. c \<noteq> CHR '';'') url)))"

definition urlunsplit :: "string \<times> string \<times> string \<times> string \<times> string \<Rightarrow> string" where
  "urlunsplit components =
     (case components of (scheme, netloc, url, query, fragment) \<Rightarrow>
        (let url1 =
               (if netloc \<noteq> [] \<or> (scheme \<noteq> [] \<and> scheme \<in> set uses_netloc) \<or> take 2 url = ''//''
                then ''//'' @ netloc @ (if url \<noteq> [] \<and> take 1 url \<noteq> ''/'' then ''/'' @ url else url)
                else url);
             url2 = (if scheme \<noteq> [] then scheme @ '':'' @ url1 else url1);
             url3 = (if query \<noteq> [] then url2 @ ''?'' @ query else url2)
         in if fragment \<noteq> [] then url3 @ ''#'' @ fragment else url3))"

record parse_result =
  scheme :: string
  netloc :: string
  path :: string
  params :: string
  query :: string
  fragment :: string

definition urlparse :: "(string \<Rightarrow> bool) \<Rightarrow> string \<Rightarrow> error + parse_result" where
  "urlparse host_check url0 =
     (case urlsplit host_check url0 of
        Inl e \<Rightarrow> Inl e
      | Inr (sch, nl, url1, qry, frag) \<Rightarrow>
          (let (url2, prms) =
                 (if sch \<in> set uses_params \<and> CHR '';'' \<in> set url1 then splitparams url1
                  else (url1, []))
           in Inr \<lparr>scheme = sch, netloc = nl, path = url2, params = prms,
                    query = qry, fragment = frag\<rparr>))"

definition urlunparse :: "parse_result \<Rightarrow> string" where
  "urlunparse p =
     urlunsplit (scheme p, netloc p,
       (if params p \<noteq> [] then path p @ '';'' @ params p else path p), query p, fragment p)"

section \<open>The relay handler: \<open>workers/python/worker.py\<close>\<close>

text \<open>
  The objects of the \<open>js\<close> module. A message has headers, as the sequence of pairs that
  \<open>headers.entries()\<close> yields, and a body; the options of a \<open>fetch\<close> add the method, a
  request adds its URL, and a response adds its status. The field \<open>http_method\<close> is the
  \<open>method\<close> of the source. The body of the handler's own error responses is a JSON
  value; any other body is a stream that the handler passes on without reading it.
\<close>

datatype json = JString string | JObject "(string \<times> json) list"

datatype 'a content = NoBody | Stream 'a | Json json

record 'a message =
  headers :: "(string \<times> string) list"
  body :: "'a content"

record 'a init = "'a message" +
  http_method :: string

record 'a request = "'a init" +
  url :: string

record 'a response = "'a message" +
  status :: nat
  statusText :: "string option"

text \<open>A \<open>fetch\<close> returns a response or raises; \<open>Raises msg\<close> is an exception \<open>e\<close> with
  \<open>str(e) = msg\<close>.\<close>

datatype 'a fetch_result = Returns "'a response" | Raises string

text \<open>\<open>headers.get(name)\<close> looks a name up whatever its case.\<close>

definition headers_get :: "(string \<times> string) list \<Rightarrow> string \<Rightarrow> string option" where
  "headers_get hs name = map_of (map (\<lambda>(k, v). (lower k, v)) hs) (lower name)"

text \<open>\<open>getattr(env, name, default)\<close> on the bindings of the environment.\<close>

definition getattr :: "(string \<rightharpoonup> string) \<Rightarrow> string \<Rightarrow> string \<Rightarrow> string" where
  "getattr env name dflt = (case env name of Some v \<Rightarrow> v | None \<Rightarrow> dflt)"

text \<open>A value is true in a condition when it is neither \<open>None\<close> nor empty.\<close>

definition truthy :: "'a list option \<Rightarrow> bool" where
  "truthy x = (case x of None \<Rightarrow> False | Some v \<Rightarrow> v \<noteq> [])"

definition FILTERED_PARAMS :: "string set" where
  "FILTERED_PARAMS = {''url'', ''_cb'', ''_t''}"

text \<open>\<open>random.randint(a, b)\<close> draws an integer between \<open>a\<close> and \<open>b\<close>, both included, from
  the generator's next output \<open>r\<close>; \<open>rnd i\<close> is the \<open>i\<close>-th output.\<close>

definition randint :: "nat \<Rightarrow> nat \<Rightarrow> nat \<Rightarrow> nat" where
  "randint a b r = a + r mod (b - a + 1)"

definition generate_random_ip :: "(nat \<Rightarrow> nat) \<Rightarrow> string" where
  "generate_random_ip rnd = join ''.'' (map (\<lambda>i. str_nat (randint 1 255 (rnd i))) [0 ..< 4])"

definition default_cors :: "(string, string) dict" where
  "default_cors =
     [(''Access-Control-Allow-Origin'', ''*''),
      (''Access-Control-Allow-Methods'', ''GET, POST, PUT, DELETE, OPTIONS, PATCH, HEAD''),
      (''Access-Control-Allow-Headers'', ''*'')]"

definition create_error_response ::
  "string \<Rightarrow> (string \<times> json) list option \<Rightarrow> nat \<Rightarrow> (string, string) dict option \<Rightarrow> 'a response" where
  "create_error_response message details stat cors_headers =
     (let body0 = [(''error'', JString message)];
          body1 = (if truthy details then dict_update body0 (the details) else body0);
          headers0 = [(''Content-Type'', ''application/json'')];
          headers1 = (if truthy cors_headers then dict_update headers0 (the cors_headers)
                      else dict_update headers0 default_cors)
      in \<lparr>headers = headers1, body = Json (JObject body1), status = stat, statusText = None\<rparr>)"

definition usage :: "(string \<times> json) list" where
  "usage =
     [(''usage'', JObject
        [(''query_param'', JString ''?url=https://example.com''),
         (''header'', JString ''X-Target-URL: https://example.com''),
         (''path'', JString ''/https://example.com'')])]"

text \<open>Step 1.1 of \<open>on_fetch\<close>: the target of the \<open>url\<close> query parameter, rebuilt with the
  filtered parameters of its own query and the other parameters of the relay request. A
  comprehension over the items of a dictionary keeps the items that pass its condition,
  in their order. \<open>Inr None\<close> is the \<open>target_url = None\<close> of the source; \<open>Inl\<close> is the
  \<open>ValueError\<close> of \<open>urlparse\<close>, which the handler does not catch.\<close>

definition query_param_target ::
  "(string \<Rightarrow> bool) \<Rightarrow> (string, string list) dict \<Rightarrow> error + string option" where
  "query_param_target host_check query_params =
     (let url_param = dict_get query_params ''url'' in
      if truthy url_param \<and> hd (the url_param) \<noteq> [] then
        (case urlparse host_check (hd (the url_param)) of
           Inl e \<Rightarrow> Inl e
         | Inr target_parsed \<Rightarrow>
             (let filtered_qs = filter (\<lambda>(k, v). k \<notin> FILTERED_PARAMS) (parse_qs (query target_parsed));
                  extra_qs = filter (\<lambda>(k, v). k \<notin> FILTERED_PARAMS) query_params;
                  merged_qs = dict_update filtered_qs extra_qs;
                  new_query = (if merged_qs \<noteq> [] then urlencode_doseq merged_qs else [])
              in Inr (Some (urlunparse (target_parsed\<lparr>query := new_query\<rparr>)))))
      else Inr None)"

text \<open>Steps 1.1 to 1.3: the \<open>url\<close> parameter, then the \<open>X-Target-URL\<close> header, then the
  path.\<close>

definition resolve_target ::
  "(string \<Rightarrow> bool) \<Rightarrow> parse_result \<Rightarrow> (string \<times> string) list \<Rightarrow> error + string option" where
  "resolve_target host_check parsed_url hs =
     (case query_param_target host_check (parse_qs (query parsed_url)) of
        Inl e \<Rightarrow> Inl e
      | Inr t1 \<Rightarrow>
          (let t2 = (if \<not> truthy t1 then headers_get hs ''X-Target-URL'' else t1);
               t3 = (if \<not> truthy t2 \<and> path parsed_url \<noteq> ''/'' then
                       (let p = lstrip (path parsed_url) ''/'' in
                        if startswith p ''http'' then Some p else t2)
                     else t2)
           in Inr t3))"

text \<open>Step 2: the headers of the downstream request, before and after the
  \<open>X-Forwarded-For\<close> of the handler's own.\<close>

definition sanitize_headers :: "(string \<times> string) list \<Rightarrow> (string, string) dict" where
  "sanitize_headers entries =
     fold (\<lambda>(key, value) hs.
             let key_lower = lower key in
             if key_lower \<in> {''host'', ''cf-connecting-ip'', ''cf-ipcountry'', ''cf-ray'', ''cf-visitor''}
             then hs
             else if key_lower = ''x-my-x-forwarded-for'' then dict_set ''X-Forwarded-For'' value hs
             else dict_set key value hs)
          entries []"

definition has_forwarded_for :: "(string, string) dict \<Rightarrow> bool" where
  "has_forwarded_for hs = list_ex (\<lambda>k. lower k = ''x-forwarded-for'') (dict_keys hs)"

definition prepare_headers :: "(nat \<Rightarrow> nat) \<Rightarrow> (string \<times> string) list \<Rightarrow> (string, string) dict" where
  "prepare_headers rnd entries =
     (let hs = sanitize_headers entries in
      if \<not> has_forwarded_for hs then dict_set ''X-Forwarded-For'' (generate_random_ip rnd) hs
      else hs)"

text \<open>Step 6: the headers of the response that goes back to the caller.\<close>

definition process_response_headers ::
  "(string \<rightharpoonup> string) \<Rightarrow> (string \<times> string) list \<Rightarrow> (string, string) dict" where
  "process_response_headers env entries =
     (let new_headers =
            fold (\<lambda>(key, value) hs.
                    if lower key \<notin> {''content-encoding'', ''content-length'', ''transfer-encoding''}
                    then dict_set key value hs else hs)
                 entries [];
          cors_headers =
            [(''Access-Control-Allow-Origin'', getattr env ''CORS_ORIGIN'' ''*''),
             (''Access-Control-Allow-Methods'', getattr env ''CORS_METHODS'' ''GET, POST, OPTIONS''),
             (''Access-Control-Allow-Headers'', getattr env ''CORS_ALLOWED_HEADERS'' ''*'')]
      in dict_update new_headers cors_headers)"

text \<open>Steps 3 and 4: the options of the downstream \<open>fetch\<close>. \<open>GET\<close> and \<open>HEAD\<close> carry
  no body.\<close>

definition init_opts :: "(nat \<Rightarrow> nat) \<Rightarrow> 'a request \<Rightarrow> 'a init" where
  "init_opts rnd request =
     \<lparr>headers = prepare_headers rnd (headers request),
      body = (if http_method request \<notin> {''GET'', ''HEAD''} then body request else NoBody),
      http_method = http_method request\<rparr>"

text \<open>
  The handler. Its result is the response together with the calls of \<open>fetch\<close> it made,
  in order; \<open>Inl\<close> is an exception that leaves the handler.
\<close>

definition on_fetch ::
  "(string \<Rightarrow> bool) \<Rightarrow> (nat \<Rightarrow> nat) \<Rightarrow> (string \<Rightarrow> 'a init \<Rightarrow> 'a fetch_result) \<Rightarrow>
   'a request \<Rightarrow> (string \<rightharpoonup> string) \<Rightarrow> error + ('a response \<times> (string \<times> 'a init) list)" where
  "on_fetch host_check rnd fetch request env =
     (if http_method request = ''OPTIONS'' then
        Inr (\<lparr>headers = default_cors, body = NoBody, status = 204, statusText = None\<rparr>, [])
      else
        (case urlparse host_check (url request) of
           Inl e \<Rightarrow> Inl e
         | Inr parsed_url \<Rightarrow>
            (case resolve_target host_check parsed_url (headers request) of
               Inl e \<Rightarrow> Inl e
             | Inr target_url \<Rightarrow>
                 if \<not> truthy target_url then
                   Inr (create_error_response ''Missing target URL'' (Some usage) 400 None, [])
                 else
                   (case fetch (the target_url) (init_opts rnd request) of
                      Returns response \<Rightarrow>
                        Inr (\<lparr>headers = process_response_headers env (headers response),
                              body = body response,
                              status = status response,
                              statusText = statusText response\<rparr>,
                             [(the target_url, init_opts rnd request)])
                    | Raises msg \<Rightarrow>
                        Inr (create_error_response (''Proxy Error: '' @ msg) None 502 None,
                             [(the target_url, init_opts rnd request)])))))"

text \<open>
  The claim about step 2 in its own words: the incoming entries without the five dropped
  names, compared in lower case, and with \<open>X-My-X-Forwarded-For\<close> renamed to
  \<open>X-Forwarded-For\<close>; every other entry as it came. This definition is written from the
  claim, to be compared with \<open>sanitize_headers\<close>, which is written from the code.
\<close>

definition claimed_headers :: "(string \<times> string) list \<Rightarrow> (string \<times> string) list" where
  "claimed_headers es =
     map (\<lambda>(k, v). if lower k = ''x-my-x-forwarded-for'' then (''X-Forwarded-For'', v) else (k, v))
       (filter (\<lambda>(k, v). lower k \<notin>
                 {''host'', ''cf-connecting-ip'', ''cf-ipcountry'', ''cf-ray'', ''cf-visitor''}) es)"



section \<open>The outbound rewriter: \<open>client/transport.py\<close>\<close>

text \<open>
  \<open>handle_request\<close> and \<open>handle_async_request\<close> compute the URL of the relay request with
  the same expression, \<open>httpx.URL(worker_url).copy_with(params={"url": str(request.url)})\<close>.
  An \<open>httpx.URL\<close> is modelled by the components that httpx keeps of a parsed URL; the
  query and the fragment are \<open>None\<close> when the URL has none. \<open>str(url)\<close> puts the components
  together. \<open>copy_with(params=...)\<close> sets the query to the encoded parameters, or to
  \<open>None\<close> when there are no parameters, and keeps the other components; httpx encodes the
  parameters with \<open>urlencode\<close> (before version 0.28 with an encoder of its own, which
  differs in writing a space as \<open>%20\<close>; the URL string of a request has no space). The
  parse of the worker URL by \<open>httpx.URL\<close> is taken as given.
\<close>

record httpx_url =
  url_scheme :: string
  url_userinfo :: string
  url_host :: string
  url_port :: "nat option"
  url_path :: string
  url_query :: "string option"
  url_fragment :: "string option"

definition url_authority :: "httpx_url \<Rightarrow> string" where
  "url_authority u =
     (if url_userinfo u \<noteq> [] then url_userinfo u @ ''@'' else [])
     @ (if CHR '':'' \<in> set (url_host u) then ''['' @ url_host u @ '']'' else url_host u)
     @ (case url_port u of None \<Rightarrow> [] | Some n \<Rightarrow> '':'' @ str_nat n)"

definition url_str :: "httpx_url \<Rightarrow> string" where
  "url_str u =
     (if url_scheme u \<noteq> [] then url_scheme u @ '':'' else [])
     @ (if url_authority u \<noteq> [] then ''//'' @ url_authority u else [])
     @ url_path u
     @ (case url_query u of None \<Rightarrow> [] | Some q \<Rightarrow> ''?'' @ q)
     @ (case url_fragment u of None \<Rightarrow> [] | Some f \<Rightarrow> ''#'' @ f)"

definition copy_with_params :: "httpx_url \<Rightarrow> (string \<times> string) list \<Rightarrow> httpx_url" where
  "copy_with_params u ps = u\<lparr>url_query := (if ps = [] then None else Some (urlencode ps))\<rparr>"

text \<open>The URL of the relay request, from the parsed worker URL and the URL of the
  original request.\<close>

definition proxied_url :: "httpx_url \<Rightarrow> httpx_url \<Rightarrow> httpx_url" where
  "proxied_url parsed_worker request_url =
     copy_with_params parsed_worker [(''url'', url_str request_url)]"


section \<open>Dictionaries and header names\<close>

lemma map_of_dict_set: "map_of (dict_set k v d) = (map_of d)(k \<mapsto> v)"
  by (induction d) (auto simp: fun_eq_iff)

lemma dict_keys_simps [simp]:
  "dict_keys [] = []" "dict_keys ((k, v) # d) = k # dict_keys d" "dict_keys (d @ e) = dict_keys d @ dict_keys e"
  by (simp_all add: dict_keys_def)

lemma dict_keys_dict_set:
  "dict_keys (dict_set k v d) = (if k \<in> set (dict_keys d) then dict_keys d else dict_keys d @ [k])"
  by (induction d) auto

lemma set_dict_keys_dict_set: "set (dict_keys (dict_set k v d)) = insert k (set (dict_keys d))"
  by (auto simp: dict_keys_dict_set)


lemma dict_set_fresh: "k \<notin> set (dict_keys d) \<Longrightarrow> dict_set k v d = d @ [(k, v)]"
  by (induction d) auto

lemma set_dict_keys_dict_update:
  "set (dict_keys (dict_update d e)) = set (dict_keys d) \<union> set (dict_keys e)"
  unfolding dict_update_def
  by (induction e arbitrary: d) (auto simp: set_dict_keys_dict_set)


lemma lower_cors [simp]:
  "lower ''Access-Control-Allow-Origin'' = ''access-control-allow-origin''"
  "lower ''Access-Control-Allow-Methods'' = ''access-control-allow-methods''"
  "lower ''Access-Control-Allow-Headers'' = ''access-control-allow-headers''"
  "lower ''Content-Type'' = ''content-type''"
  "lower ''X-Forwarded-For'' = ''x-forwarded-for''"
  "lower ''X-Target-URL'' = ''x-target-url''"
  by code_simp+

section \<open>The steps of the handler\<close>

lemma headers_create_error_response:
  "headers (create_error_response message details stat None :: 'a response) =
     (''Content-Type'', ''application/json'') # default_cors"
  by (simp add: create_error_response_def truthy_def dict_update_def default_cors_def Let_def)

lemma filtered_fold_keys:
  "set (dict_keys (fold (\<lambda>(key, value) hs. if lower key \<notin> S then dict_set key value hs else hs) es acc))
   \<subseteq> set (dict_keys acc) \<union> {k. lower k \<notin> S}"
proof (induction es arbitrary: acc)
  case Nil
  then show ?case by simp
next
  case (Cons a es)
  obtain key val where a: "a = (key, val)" by (cases a)
  show ?case
  proof (cases "lower key \<in> S")
    case True
    then show ?thesis using Cons.IH [of acc] by (simp add: a)
  next
    case False
    then show ?thesis using Cons.IH [of "dict_set key val acc"]
      by (auto simp: a set_dict_keys_dict_set)
  qed
qed

lemma default_cors_keys:
  "dict_keys default_cors =
     [''Access-Control-Allow-Origin'', ''Access-Control-Allow-Methods'', ''Access-Control-Allow-Headers'']"
  by (simp add: default_cors_def)

lemma process_response_headers_keys:
  "set (dict_keys (process_response_headers env es)) \<subseteq>
     {k. lower k \<notin> {''content-encoding'', ''content-length'', ''transfer-encoding''}}"
  "{''Access-Control-Allow-Origin'', ''Access-Control-Allow-Methods'', ''Access-Control-Allow-Headers''}
     \<subseteq> set (dict_keys (process_response_headers env es))"
  unfolding process_response_headers_def Let_def set_dict_keys_dict_update
  using filtered_fold_keys [where acc = "[]" and es = es
      and S = "{''content-encoding'', ''content-length'', ''transfer-encoding''}"]
  by auto

lemma on_fetch_cases:
  assumes "on_fetch host_check rnd fetch request env = Inr (resp, calls)"
  obtains
    (preflight) "http_method request = ''OPTIONS''"
      "resp = \<lparr>headers = default_cors, body = NoBody, status = 204, statusText = None\<rparr>"
      "calls = []"
  | (missing) p t where "http_method request \<noteq> ''OPTIONS''"
      "urlparse host_check (url request) = Inr p"
      "resolve_target host_check p (headers request) = Inr t" "\<not> truthy t"
      "resp = create_error_response ''Missing target URL'' (Some usage) 400 None"
      "calls = []"
  | (relayed) p t r where "http_method request \<noteq> ''OPTIONS''"
      "urlparse host_check (url request) = Inr p"
      "resolve_target host_check p (headers request) = Inr t" "truthy t"
      "fetch (the t) (init_opts rnd request) = Returns r"
      "resp = \<lparr>headers = process_response_headers env (headers r), body = body r,
                status = status r, statusText = statusText r\<rparr>"
      "calls = [(the t, init_opts rnd request)]"
  | (failed) p t msg where "http_method request \<noteq> ''OPTIONS''"
      "urlparse host_check (url request) = Inr p"
      "resolve_target host_check p (headers request) = Inr t" "truthy t"
      "fetch (the t) (init_opts rnd request) = Raises msg"
      "resp = create_error_response (''Proxy Error: '' @ msg) None 502 None"
      "calls = [(the t, init_opts rnd request)]"
proof (cases "http_method request = ''OPTIONS''")
  case True
  with assms show ?thesis by (intro preflight) (simp_all add: on_fetch_def)
next
  case opt: False
  show ?thesis
  proof (cases "urlparse host_check (url request)")
    case (Inl e)
    with assms opt show ?thesis by (simp add: on_fetch_def)
  next
    case p: (Inr p)
    show ?thesis
    proof (cases "resolve_target host_check p (headers request)")
      case (Inl e)
      with assms opt p show ?thesis by (simp add: on_fetch_def)
    next
      case t: (Inr t)
      show ?thesis
      proof (cases "truthy t")
        case False
        with assms opt p t show ?thesis by (intro missing [of p t]) (simp_all add: on_fetch_def)
      next
        case tr: True
        show ?thesis
        proof (cases "fetch (the t) (init_opts rnd request)")
          case (Returns r)
          with assms opt p t tr show ?thesis
            by (intro relayed [of p t r]) (simp_all add: on_fetch_def)
        next
          case (Raises msg)
          with assms opt p t tr show ?thesis
            by (intro failed [of p t msg]) (simp_all add: on_fetch_def)
        qed
      qed
    qed
  qed
qed



lemma truthy_simps [simp]:
  "truthy None = False" "truthy (Some v) = (v \<noteq> [])"
  by (simp_all add: truthy_def)













lemma has_forwarded_for_fresh:
  "\<not> has_forwarded_for hs \<Longrightarrow> ''X-Forwarded-For'' \<notin> set (dict_keys hs)"
  by (auto simp: has_forwarded_for_def list_ex_iff)

lemma on_fetch_calls:
  assumes "on_fetch host_check rnd fetch request env = Inr (resp, calls)"
    and "(t, i) \<in> set calls"
  shows "i = init_opts rnd request"
  using assms(1)
proof (cases rule: on_fetch_cases)
  case preflight
  with assms(2) show ?thesis by simp
next
  case (missing p t)
  with assms(2) show ?thesis by simp
next
  case (relayed p t r)
  with assms(2) show ?thesis by simp
next
  case (failed p t msg)
  with assms(2) show ?thesis by simp
qed

lemma sanitize_fold_map_of:
  "map_of (fold (\<lambda>(key, value) hs.
             if lower key \<in> {''host'', ''cf-connecting-ip'', ''cf-ipcountry'', ''cf-ray'', ''cf-visitor''}
             then hs
             else if lower key = ''x-my-x-forwarded-for'' then dict_set ''X-Forwarded-For'' value hs
             else dict_set key value hs) es acc)
   = map_of acc ++ map_of (rev (claimed_headers es))"
proof (induction es arbitrary: acc)
  case Nil
  then show ?case by (simp add: claimed_headers_def)
next
  case (Cons e es)
  obtain k v where e: "e = (k, v)" by (cases e)
  have claimed_Cons: "claimed_headers ((k, v) # es) =
      (if lower k \<in> {''host'', ''cf-connecting-ip'', ''cf-ipcountry'', ''cf-ray'', ''cf-visitor''}
       then claimed_headers es
       else (if lower k = ''x-my-x-forwarded-for'' then ''X-Forwarded-For'' else k, v) # claimed_headers es)"
    by (simp add: claimed_headers_def)
  show ?case
  proof (cases "lower k \<in> {''host'', ''cf-connecting-ip'', ''cf-ipcountry'', ''cf-ray'', ''cf-visitor''}")
    case True
    then show ?thesis
      unfolding e claimed_Cons by (simp add: Cons.IH del: insert_iff)
  next
    case False
    show ?thesis
    proof (cases "lower k = ''x-my-x-forwarded-for''")
      case True
      have "map_of (dict_set ''X-Forwarded-For'' v acc) ++ map_of (rev (claimed_headers es))
          = map_of acc ++ map_of (rev (claimed_headers es) @ [(''X-Forwarded-For'', v)])"
        by (simp add: map_of_dict_set map_add_def fun_eq_iff split: option.splits)
      with False True show ?thesis
        unfolding e claimed_Cons by (simp add: Cons.IH Let_def del: insert_iff)
    next
      case other: False
      have "map_of (dict_set k v acc) ++ map_of (rev (claimed_headers es))
          = map_of acc ++ map_of (rev (claimed_headers es) @ [(k, v)])"
        by (simp add: map_of_dict_set map_add_def fun_eq_iff split: option.splits)
      with False other show ?thesis
        unfolding e claimed_Cons by (simp add: Cons.IH Let_def del: insert_iff)
    qed
  qed
qed

lemma sanitize_fold_distinct:
  "distinct (dict_keys acc @ map fst (claimed_headers es)) \<Longrightarrow>
   fold (\<lambda>(key, value) hs.
             if lower key \<in> {''host'', ''cf-connecting-ip'', ''cf-ipcountry'', ''cf-ray'', ''cf-visitor''}
             then hs
             else if lower key = ''x-my-x-forwarded-for'' then dict_set ''X-Forwarded-For'' value hs
             else dict_set key value hs) es acc
   = acc @ claimed_headers es"
proof (induction es arbitrary: acc)
  case Nil
  then show ?case by (simp add: claimed_headers_def)
next
  case (Cons e es)
  obtain k v where e: "e = (k, v)" by (cases e)
  have claimed_Cons: "claimed_headers ((k, v) # es) =
      (if lower k \<in> {''host'', ''cf-connecting-ip'', ''cf-ipcountry'', ''cf-ray'', ''cf-visitor''}
       then claimed_headers es
       else (if lower k = ''x-my-x-forwarded-for'' then ''X-Forwarded-For'' else k, v) # claimed_headers es)"
    by (simp add: claimed_headers_def)
  show ?case
  proof (cases "lower k \<in> {''host'', ''cf-connecting-ip'', ''cf-ipcountry'', ''cf-ray'', ''cf-visitor''}")
    case True
    with Cons.prems show ?thesis
      unfolding e claimed_Cons by (simp add: Cons.IH del: insert_iff)
  next
    case False
    show ?thesis
    proof (cases "lower k = ''x-my-x-forwarded-for''")
      case True
      from False True Cons.prems
      have d: "distinct (dict_keys acc @ ''X-Forwarded-For'' # map fst (claimed_headers es))"
        unfolding e claimed_Cons by (simp del: insert_iff)
      then have fresh: "''X-Forwarded-For'' \<notin> set (dict_keys acc)" by auto
      from d have "distinct (dict_keys (acc @ [(''X-Forwarded-For'', v)]) @ map fst (claimed_headers es))"
        by auto
      from Cons.IH [OF this] False True fresh show ?thesis
        unfolding e claimed_Cons by (simp add: Let_def dict_set_fresh del: insert_iff)
    next
      case other: False
      from False other Cons.prems
      have d: "distinct (dict_keys acc @ k # map fst (claimed_headers es))"
        unfolding e claimed_Cons by (simp del: insert_iff)
      then have fresh: "k \<notin> set (dict_keys acc)" by auto
      from d have "distinct (dict_keys (acc @ [(k, v)]) @ map fst (claimed_headers es))"
        by auto
      from Cons.IH [OF this] False other fresh show ?thesis
        unfolding e claimed_Cons by (simp add: Let_def dict_set_fresh del: insert_iff)
    qed
  qed
qed

section \<open>Percent-encoding and query strings\<close>

lemma of_char_hex_digit:
  "d < 16 \<Longrightarrow> (of_char (hex_digit d) :: nat) = (if d < 10 then 48 + d else 55 + d)"
  by (simp add: hex_digit_def)

lemma hex_val_hex_digit: "d < 16 \<Longrightarrow> hex_val (hex_digit d) = Some d"
  by (simp add: hex_val_def of_char_hex_digit Let_def)

lemma unquote_to_bytes_nonpercent:
  "c \<noteq> CHR ''%'' \<Longrightarrow> unquote_to_bytes (c # cs) = c # unquote_to_bytes cs"
  by (cases cs rule: unquote_to_bytes.cases) auto

lemma unquote_to_bytes_escape:
  "hex_val h1 = Some a \<Longrightarrow> hex_val h2 = Some b \<Longrightarrow>
   unquote_to_bytes (CHR ''%'' # h1 # h2 # rest) = char_of (16 * a + b) # unquote_to_bytes rest"
  by simp

lemma char_neq_of_char: "(of_char c :: nat) \<noteq> of_char c' \<Longrightarrow> c \<noteq> c'"
  by auto

lemma always_safe_not_special:
  assumes "is_always_safe c"
  shows "c \<noteq> CHR ''%''" "c \<noteq> CHR ''+''" "c \<noteq> CHR '' ''" "c \<noteq> CHR ''&''" "c \<noteq> CHR ''=''"
  using assms by (auto simp: is_always_safe_def Let_def)

lemma hex_digit_not_special:
  assumes "d < 16"
  shows "hex_digit d \<noteq> CHR ''%''" "hex_digit d \<noteq> CHR ''+''" "hex_digit d \<noteq> CHR '' ''"
    "hex_digit d \<noteq> CHR ''&''" "hex_digit d \<noteq> CHR ''=''"
  using of_char_hex_digit [OF assms]
  by (auto intro!: char_neq_of_char split: if_splits)

lemma of_char_div_mod: "(of_char (c :: char) :: nat) div 16 < 16" "(of_char c :: nat) mod 16 < 16"
proof -
  have "(of_char c :: nat) < 256" by simp
  then show "(of_char c :: nat) div 16 < 16" by (intro less_mult_imp_div_less) simp
  show "(of_char c :: nat) mod 16 < 16" by simp
qed

lemma unquote_to_bytes_quoter:
  assumes "set safe \<subseteq> {CHR '' ''}"
  shows "unquote_to_bytes (quoter safe c @ rest) = c # unquote_to_bytes rest"
proof (cases "is_always_safe c \<or> c \<in> set safe")
  case True
  then have "c \<noteq> CHR ''%''" using assms always_safe_not_special(1) by auto
  with True show ?thesis by (simp add: quoter_def unquote_to_bytes_nonpercent)
next
  case False
  have h1: "hex_val (hex_digit ((of_char c :: nat) div 16)) = Some ((of_char c :: nat) div 16)"
    by (rule hex_val_hex_digit) (rule of_char_div_mod)
  have h2: "hex_val (hex_digit ((of_char c :: nat) mod 16)) = Some ((of_char c :: nat) mod 16)"
    by (rule hex_val_hex_digit) (rule of_char_div_mod)
  have q: "quoter safe c @ rest =
      CHR ''%'' # hex_digit ((of_char c :: nat) div 16) # hex_digit ((of_char c :: nat) mod 16) # rest"
    using False by (simp add: quoter_def)
  have "char_of (16 * ((of_char c :: nat) div 16) + (of_char c :: nat) mod 16) = c"
    by simp
  then show ?thesis
    unfolding q unquote_to_bytes_escape [OF h1 h2] by simp
qed

lemma quoter_chars:
  assumes "x \<in> set (quoter safe c)"
  shows "is_always_safe x \<or> x \<in> set safe \<or> x = CHR ''%'' \<or> (\<exists>d < 16. x = hex_digit d)"
proof -
  from assms consider "x = c" "is_always_safe c \<or> c \<in> set safe" | "x = CHR ''%''"
    | "x = hex_digit ((of_char c :: nat) div 16)" | "x = hex_digit ((of_char c :: nat) mod 16)"
    by (auto simp: quoter_def split: if_splits)
  then show ?thesis
  proof cases
    case 1
    then show ?thesis by auto
  next
    case 2
    then show ?thesis by simp
  next
    case 3
    then show ?thesis using of_char_div_mod(1) [of c] by blast
  next
    case 4
    then show ?thesis using of_char_div_mod(2) [of c] by blast
  qed
qed

lemma quote_plus_map:
  "quote_plus s = concat (map (\<lambda>c. if c = CHR '' '' then ''+'' else quoter [] c) s)"
proof (cases "CHR '' '' \<in> set s")
  case False
  then have eq: "concat (map (quoter []) s)
      = concat (map (\<lambda>c. if c = CHR '' '' then ''+'' else quoter [] c) s)"
    by (induction s) auto
  from False show ?thesis by (simp add: quote_plus_def quote_def eq)
next
  case True
  have one: "replace_char CHR '' '' CHR ''+'' (quoter '' '' c)
      = (if c = CHR '' '' then ''+'' else quoter [] c)" for c
    using always_safe_not_special(3) [of c] hex_digit_not_special(3) of_char_div_mod [of c]
    by (auto simp: quoter_def replace_char_def)
  have "replace_char CHR '' '' CHR ''+'' (concat (map (quoter '' '') s))
      = concat (map (\<lambda>c. replace_char CHR '' '' CHR ''+'' (quoter '' '' c)) s)"
    by (simp add: replace_char_def map_concat comp_def)
  with True show ?thesis by (simp add: quote_plus_def quote_def one)
qed

lemma unquote_to_bytes_quote_plus:
  "unquote_to_bytes (replace_char CHR ''+'' CHR '' '' (quote_plus s)) = s"
proof -
  have one: "replace_char CHR ''+'' CHR '' '' (if c = CHR '' '' then ''+'' else quoter [] c)
      = (if c = CHR '' '' then '' '' else quoter [] c)" for c
    using always_safe_not_special(2) [of c] hex_digit_not_special(2) of_char_div_mod [of c]
    by (auto simp: quoter_def replace_char_def)
  have "replace_char CHR ''+'' CHR '' '' (quote_plus s)
      = concat (map (\<lambda>c. if c = CHR '' '' then '' '' else quoter [] c) s)"
    unfolding quote_plus_map
    by (simp add: replace_char_def map_concat comp_def one [unfolded replace_char_def])
  moreover have "unquote_to_bytes (concat (map (\<lambda>c. if c = CHR '' '' then '' '' else quoter [] c) s)) = s"
  proof (induction s)
    case Nil
    then show ?case by simp
  next
    case (Cons c s)
    show ?case
    proof (cases "c = CHR '' ''")
      case True
      then show ?thesis
        using Cons.IH by (simp add: unquote_to_bytes_nonpercent del: unquote_to_bytes.simps)
    next
      case False
      then show ?thesis
        using Cons.IH unquote_to_bytes_quoter [of "[]" c] by (simp del: unquote_to_bytes.simps)
    qed
  qed
  ultimately show ?thesis by simp
qed

lemma utf8_replace_ascii: "list_all is_ascii s \<Longrightarrow> utf8_replace s = s"
  by (induction s) (simp_all add: is_ascii_def)

lemma unquote_to_bytes_no_percent: "CHR ''%'' \<notin> set s \<Longrightarrow> unquote_to_bytes s = s"
  by (induction s rule: unquote_to_bytes.induct) auto

lemma decode_runs_ascii:
  "list_all is_ascii s \<Longrightarrow> decode_runs s = utf8_replace (unquote_to_bytes s)"
proof (cases s)
  case Nil
  then show ?thesis by simp
next
  case (Cons c cs)
  assume "list_all is_ascii s"
  then have "takeWhile is_ascii s = s" "dropWhile is_ascii s = []"
    by (simp_all add: list_all_iff)
  then have runs: "takeWhile is_ascii (c # cs) = c # cs" "dropWhile is_ascii (c # cs) = []"
    by (simp_all only: Cons)
  from \<open>list_all is_ascii s\<close> Cons have "is_ascii c" by simp
  then show ?thesis
    unfolding Cons by (simp only: decode_runs.simps runs if_True append_Nil2)
qed

lemma unquote_ascii: "list_all is_ascii s \<Longrightarrow> unquote s = utf8_replace (unquote_to_bytes s)"
  by (simp add: unquote_def decode_runs_ascii unquote_to_bytes_no_percent utf8_replace_ascii)

lemma quote_plus_ascii: "list_all is_ascii (quote_plus s)"
proof -
  have "is_ascii x" if "x \<in> set (quote_plus s)" for x
  proof -
    from that obtain c where "x \<in> set (if c = CHR '' '' then ''+'' else quoter [] c)"
      unfolding quote_plus_map set_concat set_map by blast
    then consider "x = CHR ''+''" | "x \<in> set (quoter [] c)" by (auto split: if_splits)
    then show ?thesis
    proof cases
      case 1
      then show ?thesis by (simp add: is_ascii_def)
    next
      case 2
      from quoter_chars [OF this] consider "is_always_safe x" | "x = CHR ''%''"
        | d where "d < 16" "x = hex_digit d" by auto
      then show ?thesis
      proof cases
        case 1
        then show ?thesis by (auto simp: is_always_safe_def is_ascii_def Let_def)
      next
        case 2
        then show ?thesis by (simp add: is_ascii_def)
      next
        case 3
        with of_char_hex_digit [of d] show ?thesis
          by (auto simp: is_ascii_def split: if_splits)
      qed
    qed
  qed
  then show ?thesis by (simp add: list_all_iff)
qed

lemma unquote_plus_quote_plus: "unquote_plus (quote_plus s) = utf8_replace s"
proof -
  have "list_all is_ascii (replace_char CHR ''+'' CHR '' '' (quote_plus s))"
    using quote_plus_ascii [of s] by (auto simp: list_all_iff replace_char_def is_ascii_def)
  then show ?thesis
    by (simp add: unquote_plus_def unquote_ascii unquote_to_bytes_quote_plus)
qed

lemma quote_plus_chars:
  "CHR ''&'' \<notin> set (quote_plus s)" "CHR ''='' \<notin> set (quote_plus s)"
proof -
  have "x \<noteq> CHR ''&'' \<and> x \<noteq> CHR ''=''" if "x \<in> set (quote_plus s)" for x
  proof -
    from that obtain c where "x \<in> set (if c = CHR '' '' then ''+'' else quoter [] c)"
      unfolding quote_plus_map set_concat set_map by blast
    then consider "x = CHR ''+''" | "x \<in> set (quoter [] c)" by (auto split: if_splits)
    then show ?thesis
    proof cases
      case 1
      then show ?thesis by simp
    next
      case 2
      from quoter_chars [OF this] show ?thesis
        using always_safe_not_special(4,5) [of x] hex_digit_not_special(4,5) by auto
    qed
  qed
  then show "CHR ''&'' \<notin> set (quote_plus s)" "CHR ''='' \<notin> set (quote_plus s)" by blast+
qed

lemma quote_plus_empty_iff: "quote_plus s = [] \<longleftrightarrow> s = []"
  by (cases s) (auto simp: quote_plus_map quoter_def)

lemma str_split_no_sep: "sep \<notin> set f \<Longrightarrow> str_split sep f = [f]"
  by (induction f) auto

lemma str_split_append:
  "sep \<notin> set f \<Longrightarrow> str_split sep (f @ sep # rest) = f # str_split sep rest"
  by (induction f) (auto split: list.splits)

lemma str_split_join:
  "fs \<noteq> [] \<Longrightarrow> \<forall>f \<in> set fs. sep \<notin> set f \<Longrightarrow> str_split sep (join [sep] fs) = fs"
proof (induction "[sep]" fs rule: join.induct)
  case 1
  then show ?case by simp
next
  case (2 x)
  then show ?case by (simp add: str_split_no_sep)
next
  case (3 x y ys)
  then show ?case by (simp add: str_split_append)
qed

lemma set_join: "f \<in> set fs \<Longrightarrow> set f \<subseteq> set (join sep fs)"
  by (induction sep fs rule: join.induct) auto

lemma partition_str_eq:
  "sep \<notin> set a \<Longrightarrow> partition_str sep (a @ sep # b) = (a, True, b)"
  by (induction a) (auto simp: partition_str_def)

lemma parse_qsl_join:
  assumes "\<forall>(k, v) \<in> set ps. v \<noteq> [] \<and> utf8_valid k \<and> utf8_valid v"
  shows "parse_qsl (join ''&'' (map (\<lambda>(k, v). quote_plus k @ ''='' @ quote_plus v) ps)) = ps"
proof (cases ps)
  case Nil
  then show ?thesis by (simp add: parse_qsl_def)
next
  case (Cons p ps')
  let ?enc = "\<lambda>(k, v). quote_plus k @ ''='' @ quote_plus v"
  let ?fs = "map ?enc ps"
  have fs: "?fs \<noteq> []" using Cons by simp
  have nosep: "\<forall>f \<in> set ?fs. CHR ''&'' \<notin> set f"
    using quote_plus_chars(1) by auto
  have "?enc p \<in> set ?fs" using Cons by simp
  from set_join [OF this, of "''&''"] have ne: "join ''&'' ?fs \<noteq> []"
    by (cases p) auto
  have field: "(\<lambda>name_value.
             if name_value \<noteq> [] then
               (case partition_str CHR ''='' name_value of
                  (name, has_eq, value) \<Rightarrow>
                    if value \<noteq> [] then [(unquote_plus name, unquote_plus value)] else [])
             else []) (?enc kv) = [kv]" if "kv \<in> set ps" for kv
  proof -
    obtain k v where kv: "kv = (k, v)" by (cases kv)
    with that assms have "v \<noteq> []" "utf8_replace k = k" "utf8_replace v = v"
      by (auto simp: utf8_valid_def)
    then show ?thesis
      using partition_str_eq [OF quote_plus_chars(2), of k "quote_plus v"]
      by (simp add: kv quote_plus_empty_iff unquote_plus_quote_plus)
  qed
  have "concat (map (\<lambda>name_value.
             if name_value \<noteq> [] then
               (case partition_str CHR ''='' name_value of
                  (name, has_eq, value) \<Rightarrow>
                    if value \<noteq> [] then [(unquote_plus name, unquote_plus value)] else [])
             else []) ?fs) = concat (map (\<lambda>kv. [kv]) ps)"
    unfolding map_map comp_def using field by (intro arg_cong [where f = concat] map_cong) auto
  then show ?thesis
    using ne str_split_join [OF fs nosep] by (simp add: parse_qsl_def)
qed

lemma parse_qsl_urlencode:
  "\<forall>(k, v) \<in> set ps. v \<noteq> [] \<and> utf8_valid k \<and> utf8_valid v \<Longrightarrow> parse_qsl (urlencode ps) = ps"
  unfolding urlencode_def by (rule parse_qsl_join)

lemma parse_qs_single:
  "v \<noteq> [] \<Longrightarrow> utf8_valid k \<Longrightarrow> utf8_valid v \<Longrightarrow> parse_qs (urlencode [(k, v)]) = [(k, [v])]"
  using parse_qsl_urlencode [of "[(k, v)]"] by (simp add: parse_qs_def dict_get_def)



















lemma takeWhile_stop: "\<forall>x \<in> set xs. P x \<Longrightarrow> \<not> P y \<Longrightarrow> takeWhile P (xs @ y # ys) = xs"
  by (induction xs) auto

lemma dropWhile_stop: "\<forall>x \<in> set xs. P x \<Longrightarrow> \<not> P y \<Longrightarrow> dropWhile P (xs @ y # ys) = y # ys"
  by (induction xs) auto

lemma quote_plus_printable:
  assumes "x \<in> set (quote_plus s)"
  shows "32 < (of_char x :: nat)" "x \<noteq> CHR ''#''" "x \<noteq> CHR ''?''"
proof -
  from assms obtain c where "x \<in> set (if c = CHR '' '' then ''+'' else quoter [] c)"
    unfolding quote_plus_map set_concat set_map by blast
  then consider "x = CHR ''+''" | "x \<in> set (quoter [] c)" by (auto split: if_splits)
  then have "32 < (of_char x :: nat) \<and> x \<noteq> CHR ''#'' \<and> x \<noteq> CHR ''?''"
  proof cases
    case 1
    then show ?thesis by simp
  next
    case 2
    from quoter_chars [OF this] consider "is_always_safe x" | "x = CHR ''%''"
      | d where "d < 16" "x = hex_digit d" by auto
    then show ?thesis
    proof cases
      case 1
      then show ?thesis by (auto simp: is_always_safe_def Let_def)
    next
      case 2
      then show ?thesis by simp
    next
      case 3
      with of_char_hex_digit [of d] show ?thesis
        by (auto split: if_splits)
    qed
  qed
  then show "32 < (of_char x :: nat)" "x \<noteq> CHR ''#''" "x \<noteq> CHR ''?''" by simp_all
qed

lemma split_scheme_http:
  "split_scheme (''http://'' @ rest) = (''http'', ''//'' @ rest)"
  "split_scheme (''https://'' @ rest) = (''https'', ''//'' @ rest)"
proof -
  have "lower ''http'' = ''http''" "lower ''https'' = ''https''"
    "list_all is_scheme_char ''http''" "list_all is_scheme_char ''https''" "is_ascii_alpha CHR ''h''"
    by code_simp+
  then show "split_scheme (''http://'' @ rest) = (''http'', ''//'' @ rest)"
    "split_scheme (''https://'' @ rest) = (''https'', ''//'' @ rest)"
    by (simp_all add: split_scheme_def)
qed

lemma urlsplit_relay_url:
  assumes sch: "sch = ''http'' \<or> sch = ''https''"
    and auth: "\<forall>c \<in> set auth. 32 < (of_char c :: nat) \<and> (of_char c :: nat) < 128 \<and> c \<notin> set ''/?#[]''"
    and pth: "pth = [] \<or> (\<exists>rest. pth = CHR ''/'' # rest)"
    and pthc: "\<forall>c \<in> set pth. 32 < (of_char c :: nat) \<and> c \<notin> set ''?#''"
    and q: "\<forall>c \<in> set q. 32 < (of_char c :: nat) \<and> c \<noteq> CHR ''#''"
  shows "urlsplit host_check (sch @ ''://'' @ auth @ pth @ CHR ''?'' # q) = Inr (sch, auth, pth, q, [])"
proof -
  let ?tail = "pth @ CHR ''?'' # q"
  let ?rest = "auth @ ?tail"
  let ?s = "sch @ ''://'' @ ?rest"
  have s: "\<forall>c \<in> set (sch @ ''://''). 32 < (of_char c :: nat)"
    using sch by (elim disjE) simp_all
  from auth have a: "\<forall>c \<in> set auth. 32 < (of_char c :: nat)" by blast
  from pthc have p: "\<forall>c \<in> set pth. 32 < (of_char c :: nat)" by blast
  from q have q': "\<forall>c \<in> set (CHR ''?'' # q). 32 < (of_char c :: nat)" by simp
  have "set ?s = set (sch @ ''://'') \<union> set auth \<union> set pth \<union> set (CHR ''?'' # q)"
    by (simp only: set_append Un_assoc append_assoc)
  with s a p q' have big: "\<forall>c \<in> set ?s. 32 < (of_char c :: nat)"
    by (simp only: ball_Un)
  have first: "dropWhile (\<lambda>c. (of_char c :: nat) \<le> 32) ?s = ?s"
    using sch by (elim disjE) simp_all
  have "c \<notin> {CHR 0x09, CHR 0x0D, CHR 0x0A}" if "c \<in> set ?s" for c
  proof -
    from big that have "32 < (of_char c :: nat)" by blast
    then show ?thesis by auto
  qed
  then have clean: "filter (\<lambda>c. c \<notin> {CHR 0x09, CHR 0x0D, CHR 0x0A}) ?s = ?s"
    by (simp only: filter_id_conv) blast
  have scheme: "split_scheme ?s = (sch, ''//'' @ ?rest)"
    using sch split_scheme_http [of ?rest] by (elim disjE) simp_all
  obtain y ys where yys: "?tail = y # ys" "y = CHR ''/'' \<or> y = CHR ''?''"
    using pth by (elim disjE exE) simp_all
  have a1: "\<forall>x \<in> set auth. x \<notin> set ''/?#''" using auth by simp
  have a2: "\<not> y \<notin> set ''/?#''" using yys(2) by (elim disjE) simp_all
  have netloc: "splitnetloc (''//'' @ ?rest) = (auth, ?tail)"
    unfolding splitnetloc_def yys(1)
    using takeWhile_stop [of auth "\<lambda>c. c \<notin> set ''/?#''" y ys, OF a1 a2]
      dropWhile_stop [of auth "\<lambda>c. c \<notin> set ''/?#''" y ys, OF a1 a2]
    by simp
  from pthc have "CHR ''#'' \<notin> set pth" by auto
  moreover from q have "CHR ''#'' \<notin> set q" by auto
  ultimately have nofrag: "CHR ''#'' \<notin> set ?tail" by simp
  have p1: "\<forall>x \<in> set pth. x \<noteq> CHR ''?''" using pthc by auto
  have qsplit: "takeWhile (\<lambda>c. c \<noteq> CHR ''?'') ?tail = pth"
    "dropWhile (\<lambda>c. c \<noteq> CHR ''?'') ?tail = CHR ''?'' # q"
    using takeWhile_stop [of pth "\<lambda>c. c \<noteq> CHR ''?''" "CHR ''?''" q]
      dropWhile_stop [of pth "\<lambda>c. c \<noteq> CHR ''?''" "CHR ''?''" q] p1
    by simp_all
  have hasq: "CHR ''?'' \<in> set ?tail" by simp
  from auth have "CHR ''['' \<notin> set auth" "CHR '']'' \<notin> set auth"
    by (simp, blast)+
  moreover from auth have "\<not> (\<exists>c \<in> set auth. 128 \<le> (of_char c :: nat))"
    by (simp only: bex_simps not_le) blast
  ultimately
  have ok: "netloc_accepted host_check auth"
    by (simp add: netloc_accepted_def)
  have take2: "take 2 (''//'' @ ?rest) = ''//''" by simp
  show ?thesis
    unfolding urlsplit_def first clean Let_def scheme
    by (simp only: take2 netloc nofrag hasq qsplit ok simp_thms if_True if_False prod.case
          drop_Suc_Cons drop_0 One_nat_def)
qed

lemma urlparse_relay_url:
  assumes "url_scheme w = ''http'' \<or> url_scheme w = ''https''"
    and "url_authority w \<noteq> []"
    and "\<forall>c \<in> set (url_authority w).
           32 < (of_char c :: nat) \<and> (of_char c :: nat) < 128 \<and> c \<notin> set ''/?#[]''"
    and "url_path w = [] \<or> (\<exists>rest. url_path w = CHR ''/'' # rest)"
    and "\<forall>c \<in> set (url_path w). 32 < (of_char c :: nat) \<and> c \<notin> set ''?#''"
    and "url_fragment w = None"
  shows "\<exists>p. urlparse host_check (url_str (proxied_url w r)) = Inr p
           \<and> query p = ''url='' @ quote_plus (url_str r)"
proof -
  define q where "q = ''url='' @ quote_plus (url_str r)"
  have "quote_plus ''url'' = ''url''" by code_simp
  then have pq: "proxied_url w r = w\<lparr>url_query := Some q\<rparr>"
    by (simp add: proxied_url_def copy_with_params_def urlencode_def q_def)
  have auth: "url_authority (w\<lparr>url_query := Some q\<rparr>) = url_authority w"
    by (simp add: url_authority_def)
  have "url_str (w\<lparr>url_query := Some q\<rparr>)
      = url_scheme w @ ''://'' @ url_authority w @ url_path w @ CHR ''?'' # q"
    unfolding url_str_def auth using assms(1,2,6) by auto
  then have str: "url_str (proxied_url w r)
      = url_scheme w @ ''://'' @ url_authority w @ url_path w @ CHR ''?'' # q"
    by (simp only: pq)
  have qc: "\<forall>c \<in> set q. 32 < (of_char c :: nat) \<and> c \<noteq> CHR ''#''"
    unfolding q_def using quote_plus_printable(1,2) [of _ "url_str r"] by auto
  from urlsplit_relay_url [OF assms(1) assms(3) assms(4) assms(5) qc, of host_check]
  have "\<exists>p. urlparse host_check (url_str (proxied_url w r)) = Inr p \<and> query p = q"
    unfolding str by (simp add: urlparse_def split: prod.splits)
  then show ?thesis by (simp only: q_def)
qed

section \<open>Query parameters, target resolution and downstream headers\<close>
















lemma dict_get_eq: "dict_get d = map_of d"
  by (simp add: fun_eq_iff dict_get_def)

lemma sanitize_headers_dict: "map_of (sanitize_headers es) = map_of (rev (claimed_headers es))"
  using sanitize_fold_map_of [of es "[]"]
  by (simp add: sanitize_headers_def Let_def del: insert_iff)

lemma sanitize_headers_distinct:
  "distinct (map fst (claimed_headers es)) \<Longrightarrow> sanitize_headers es = claimed_headers es"
  using sanitize_fold_distinct [of "[]" es]
  by (simp add: sanitize_headers_def Let_def del: insert_iff)

lemma sanitize_headers_keys:
  "set (dict_keys (sanitize_headers es)) = fst ` set (claimed_headers es)"
proof -
  have "dom (map_of (sanitize_headers es)) = dom (map_of (rev (claimed_headers es)))"
    by (simp only: sanitize_headers_dict)
  then show ?thesis by (simp add: dom_map_of_conv_image_fst dict_keys_def)
qed

lemma has_forwarded_for_claimed:
  "has_forwarded_for (sanitize_headers es)
     \<longleftrightarrow> list_ex (\<lambda>k. lower k = ''x-forwarded-for'') (map fst (claimed_headers es))"
  unfolding has_forwarded_for_def list_ex_iff sanitize_headers_keys by simp



lemma on_fetch_call_headers:
  assumes "on_fetch host_check rnd fetch request env = Inr (resp, calls)" and "call \<in> set calls"
  shows "headers (snd call) = prepare_headers rnd (headers request)"
  using on_fetch_calls [OF assms(1), of "fst call" "snd call"] assms(2)
  by (simp add: init_opts_def)




lemma prepare_headers_synthesized:
  assumes "\<not> has_forwarded_for (sanitize_headers es)"
  shows "prepare_headers rnd es = sanitize_headers es @ [(''X-Forwarded-For'', generate_random_ip rnd)]"
  using assms has_forwarded_for_fresh [OF assms] by (simp add: prepare_headers_def dict_set_fresh)


section \<open>The claims about the outbound rewriter\<close>

text \<open>
  C1. The relay request that the rewriter produces has the query \<open>url=\<close> followed by the
  encoded URL string of the original request, and the relay handler's decoding of that
  query, \<open>parse_qs(...).get("url")\<close>, is the list of the one original URL string: encoding
  on the client and decoding on the relay give the URL back. The URL string of a request
  is not empty, and as a Python string it is well-formed UTF-8 in this model of strings;
  httpx keeps its URLs in ASCII. When the worker URL has the scheme \<open>http\<close> or \<open>https\<close>, a
  plain ASCII authority, a path without \<open>?\<close> and \<open>#\<close> and no fragment, the handler's
  \<open>urlparse\<close> of the relay request's URL string finds this very query.
\<close>

theorem url_parameter_round_trip:
  assumes "url_str request_url \<noteq> []" and "utf8_valid (url_str request_url)"
  shows "\<exists>q. url_query (proxied_url parsed_worker request_url) = Some q
           \<and> q = ''url='' @ quote_plus (url_str request_url)
           \<and> dict_get (parse_qs q) ''url'' = Some [url_str request_url]
           \<and> ((url_scheme parsed_worker = ''http'' \<or> url_scheme parsed_worker = ''https'')
                \<longrightarrow> url_authority parsed_worker \<noteq> []
                \<longrightarrow> (\<forall>c \<in> set (url_authority parsed_worker).
                       32 < (of_char c :: nat) \<and> (of_char c :: nat) < 128 \<and> c \<notin> set ''/?#[]'')
                \<longrightarrow> (url_path parsed_worker = [] \<or> (\<exists>rest. url_path parsed_worker = CHR ''/'' # rest))
                \<longrightarrow> (\<forall>c \<in> set (url_path parsed_worker). 32 < (of_char c :: nat) \<and> c \<notin> set ''?#'')
                \<longrightarrow> url_fragment parsed_worker = None
                \<longrightarrow> (\<forall>host_check. \<exists>p.
                       urlparse host_check (url_str (proxied_url parsed_worker request_url)) = Inr p
                       \<and> query p = q))"
proof -
  have "url_query (proxied_url parsed_worker request_url)
      = Some (urlencode [(''url'', url_str request_url)])"
    by (simp add: proxied_url_def copy_with_params_def)
  moreover have "urlencode [(''url'', url_str request_url)] = ''url='' @ quote_plus (url_str request_url)"
  proof -
    have "quote_plus ''url'' = ''url''" by code_simp
    then show ?thesis by (simp add: urlencode_def)
  qed
  moreover have "dict_get (parse_qs (urlencode [(''url'', url_str request_url)])) ''url''
      = Some [url_str request_url]"
  proof -
    have "utf8_valid ''url''" by (simp add: utf8_valid_def)
    from parse_qs_single [OF assms(1) this assms(2)] show ?thesis by (simp add: dict_get_def)
  qed
  ultimately have first:
    "url_query (proxied_url parsed_worker request_url) = Some (''url='' @ quote_plus (url_str request_url))"
    "dict_get (parse_qs (''url='' @ quote_plus (url_str request_url))) ''url'' = Some [url_str request_url]"
    by simp_all
  show ?thesis
  proof (intro exI [of _ "''url='' @ quote_plus (url_str request_url)"] conjI impI allI)
    show "url_query (proxied_url parsed_worker request_url)
        = Some (''url='' @ quote_plus (url_str request_url))"
      by (rule first)
    show "dict_get (parse_qs (''url='' @ quote_plus (url_str request_url))) ''url''
        = Some [url_str request_url]"
      by (rule first)
    show "''url='' @ quote_plus (url_str request_url) = ''url='' @ quote_plus (url_str request_url)"
      by (rule refl)
  next
    fix host_check
    assume "url_scheme parsed_worker = ''http'' \<or> url_scheme parsed_worker = ''https''"
      and "url_authority parsed_worker \<noteq> []"
      and "\<forall>c \<in> set (url_authority parsed_worker).
             32 < (of_char c :: nat) \<and> (of_char c :: nat) < 128 \<and> c \<notin> set ''/?#[]''"
      and "url_path parsed_worker = [] \<or> (\<exists>rest. url_path parsed_worker = CHR ''/'' # rest)"
      and "\<forall>c \<in> set (url_path parsed_worker). 32 < (of_char c :: nat) \<and> c \<notin> set ''?#''"
      and "url_fragment parsed_worker = None"
    then show "\<exists>p. urlparse host_check (url_str (proxied_url parsed_worker request_url)) = Inr p
        \<and> query p = ''url='' @ quote_plus (url_str request_url)"
      by (rule urlparse_relay_url)
  qed
qed

theorem url_parameter_round_trip_witness:
  "url_query (proxied_url
      \<lparr>url_scheme = ''https'', url_userinfo = [], url_host = ''worker.dev'', url_port = None,
       url_path = [], url_query = None, url_fragment = None\<rparr>
      \<lparr>url_scheme = ''https'', url_userinfo = [], url_host = ''httpbin.org'', url_port = None,
       url_path = ''/get'', url_query = Some ''a=1&b=x%20y'', url_fragment = None\<rparr>)
     = Some ''url=https%3A%2F%2Fhttpbin.org%2Fget%3Fa%3D1%26b%3Dx%2520y''
   \<and> dict_get (parse_qs ''url=https%3A%2F%2Fhttpbin.org%2Fget%3Fa%3D1%26b%3Dx%2520y'') ''url''
     = Some [''https://httpbin.org/get?a=1&b=x%20y'']
   \<and> (\<exists>p. urlparse (\<lambda>_. True)
       (url_str (proxied_url
        \<lparr>url_scheme = ''https'', url_userinfo = [], url_host = ''worker.dev'', url_port = None,
         url_path = [], url_query = None, url_fragment = None\<rparr>
        \<lparr>url_scheme = ''https'', url_userinfo = [], url_host = ''httpbin.org'', url_port = None,
         url_path = ''/get'', url_query = Some ''a=1&b=x%20y'', url_fragment = None\<rparr>)) = Inr p
       \<and> query p = ''url=https%3A%2F%2Fhttpbin.org%2Fget%3Fa%3D1%26b%3Dx%2520y'')"
proof -
  let ?w = "\<lparr>url_scheme = ''https'', url_userinfo = [], url_host = ''worker.dev'', url_port = None,
       url_path = [], url_query = None, url_fragment = None\<rparr>"
  let ?r = "\<lparr>url_scheme = ''https'', url_userinfo = [], url_host = ''httpbin.org'', url_port = None,
       url_path = ''/get'', url_query = Some ''a=1&b=x%20y'', url_fragment = None\<rparr>"
  have s: "url_str ?r = ''https://httpbin.org/get?a=1&b=x%20y''" by code_simp
  have e: "''url='' @ quote_plus ''https://httpbin.org/get?a=1&b=x%20y''
      = ''url=https%3A%2F%2Fhttpbin.org%2Fget%3Fa%3D1%26b%3Dx%2520y''" by code_simp
  have n: "url_str ?r \<noteq> []" unfolding s by simp
  have v: "utf8_valid (url_str ?r)" unfolding s by code_simp
  have w1: "url_scheme ?w = ''http'' \<or> url_scheme ?w = ''https''" by simp
  have au: "url_authority ?w = ''worker.dev''" by code_simp
  have w2: "url_authority ?w \<noteq> []" unfolding au by simp
  have w3: "\<forall>c \<in> set (url_authority ?w).
             32 < (of_char c :: nat) \<and> (of_char c :: nat) < 128 \<and> c \<notin> set ''/?#[]''"
    unfolding au by simp
  have w4: "url_path ?w = [] \<or> (\<exists>rest. url_path ?w = CHR ''/'' # rest)" by simp
  have w5: "\<forall>c \<in> set (url_path ?w). 32 < (of_char c :: nat) \<and> c \<notin> set ''?#''" by simp
  have w6: "url_fragment ?w = None" by simp
  from url_parameter_round_trip [OF n v, of ?w] obtain q where
    every: "url_query (proxied_url ?w ?r) = Some q
           \<and> q = ''url='' @ quote_plus (url_str ?r)
           \<and> dict_get (parse_qs q) ''url'' = Some [url_str ?r]
           \<and> ((url_scheme ?w = ''http'' \<or> url_scheme ?w = ''https'')
                \<longrightarrow> url_authority ?w \<noteq> []
                \<longrightarrow> (\<forall>c \<in> set (url_authority ?w).
                       32 < (of_char c :: nat) \<and> (of_char c :: nat) < 128 \<and> c \<notin> set ''/?#[]'')
                \<longrightarrow> (url_path ?w = [] \<or> (\<exists>rest. url_path ?w = CHR ''/'' # rest))
                \<longrightarrow> (\<forall>c \<in> set (url_path ?w). 32 < (of_char c :: nat) \<and> c \<notin> set ''?#'')
                \<longrightarrow> url_fragment ?w = None
                \<longrightarrow> (\<forall>host_check. \<exists>p.
                       urlparse host_check (url_str (proxied_url ?w ?r)) = Inr p \<and> query p = q))"
    ..
  note q = every [THEN conjunct1] every [THEN conjunct2, THEN conjunct1]
    every [THEN conjunct2, THEN conjunct2, THEN conjunct1]
  note parse = every [THEN conjunct2, THEN conjunct2, THEN conjunct2]
  have qv: "q = ''url=https%3A%2F%2Fhttpbin.org%2Fget%3Fa%3D1%26b%3Dx%2520y''"
    using q(2) unfolding s e .
  from parse [THEN mp, OF w1, THEN mp, OF w2, THEN mp, OF w3, THEN mp, OF w4, THEN mp, OF w5,
      THEN mp, OF w6, THEN spec, of "\<lambda>_. True"]
  have "\<exists>p. urlparse (\<lambda>_. True) (url_str (proxied_url ?w ?r)) = Inr p
       \<and> query p = ''url=https%3A%2F%2Fhttpbin.org%2Fget%3Fa%3D1%26b%3Dx%2520y''"
    unfolding qv .
  moreover from q(1,3) have
    "url_query (proxied_url ?w ?r) = Some ''url=https%3A%2F%2Fhttpbin.org%2Fget%3Fa%3D1%26b%3Dx%2520y''"
    "dict_get (parse_qs ''url=https%3A%2F%2Fhttpbin.org%2Fget%3Fa%3D1%26b%3Dx%2520y'') ''url''
       = Some [''https://httpbin.org/get?a=1&b=x%20y'']"
    unfolding qv s by simp_all
  ultimately show ?thesis by (intro conjI)
qed

text \<open>
  C8, as the claim states it, fails: a worker URL with the query \<open>token=abc\<close> is rewritten
  to a URL whose query is the \<open>url\<close> parameter alone.
\<close>

theorem base_query_replaced:
  "dict_get (parse_qs ''token=abc'') ''token'' = Some [''abc'']
   \<and> url_query (proxied_url
        \<lparr>url_scheme = ''https'', url_userinfo = [], url_host = ''worker.dev'', url_port = None,
         url_path = [], url_query = Some ''token=abc'', url_fragment = None\<rparr>
        \<lparr>url_scheme = ''https'', url_userinfo = [], url_host = ''httpbin.org'', url_port = None,
         url_path = ''/ip'', url_query = None, url_fragment = None\<rparr>)
       = Some ''url=https%3A%2F%2Fhttpbin.org%2Fip''
   \<and> dict_get (parse_qs ''url=https%3A%2F%2Fhttpbin.org%2Fip'') ''token'' = None"
  by code_simp

text \<open>
  C8, amended. The rewriter leaves the scheme, the user information, the host, the port,
  the path and the fragment of the endpoint's base URL as they are, and sets its query to
  the one parameter \<open>url\<close> with the encoded URL string of the original request; a query
  that the base URL had is replaced.
\<close>

theorem rewrite_changes_query_only:
  "url_scheme (proxied_url parsed_worker request_url) = url_scheme parsed_worker
   \<and> url_userinfo (proxied_url parsed_worker request_url) = url_userinfo parsed_worker
   \<and> url_host (proxied_url parsed_worker request_url) = url_host parsed_worker
   \<and> url_port (proxied_url parsed_worker request_url) = url_port parsed_worker
   \<and> url_path (proxied_url parsed_worker request_url) = url_path parsed_worker
   \<and> url_fragment (proxied_url parsed_worker request_url) = url_fragment parsed_worker
   \<and> url_query (proxied_url parsed_worker request_url)
       = Some (''url='' @ quote_plus (url_str request_url))"
proof -
  have "quote_plus ''url'' = ''url''" by code_simp
  then show ?thesis by (simp add: proxied_url_def copy_with_params_def urlencode_def)
qed

section \<open>The claims about the relay handler\<close>












text \<open>
  C6, as the claim states it, fails. A request with the one header \<open>Accept\<close> is sent
  downstream with \<open>Accept\<close> and with an \<open>X-Forwarded-For\<close> header that the handler has made,
  which is not among the incoming headers after dropping and renaming.
\<close>

theorem synthesized_header_is_sent:
  "on_fetch (\<lambda>_. True) (\<lambda>_. 0)
     (\<lambda>u i. Returns \<lparr>headers = [], body = Stream (), status = 200, statusText = Some ''OK''\<rparr>)
     \<lparr>headers = [(''Accept'', ''*/*'')], body = NoBody, http_method = ''GET'',
      url = ''http://worker.dev/?url=https://example.com''\<rparr>
     Map.empty
   = Inr (\<lparr>headers = [(''Access-Control-Allow-Origin'', ''*''),
                      (''Access-Control-Allow-Methods'', ''GET, POST, OPTIONS''),
                      (''Access-Control-Allow-Headers'', ''*'')],
           body = Stream (), status = 200, statusText = Some ''OK''\<rparr>,
          [(''https://example.com'',
            \<lparr>headers = [(''Accept'', ''*/*''), (''X-Forwarded-For'', ''1.1.1.1'')],
             body = NoBody, http_method = ''GET''\<rparr>)])
   \<and> claimed_headers [(''Accept'', ''*/*'')] = [(''Accept'', ''*/*'')]"
  by code_simp

text \<open>
  C6, amended. The headers of every call of \<open>fetch\<close> are the incoming headers without
  \<open>Host\<close>, \<open>CF-Connecting-IP\<close>, \<open>CF-IPCountry\<close>, \<open>CF-Ray\<close> and \<open>CF-Visitor\<close> in any case,
  with \<open>X-My-X-Forwarded-For\<close> put under the name \<open>X-Forwarded-For\<close>, with every other
  header under its own name and value, and, when none of these is named \<open>X-Forwarded-For\<close>
  in any case, with one more \<open>X-Forwarded-For\<close> header that holds the generated address.
  As dictionaries the two are equal (of two entries that come under one name the later
  one counts, as in any \<open>dict\<close>), and when no two entries come under one name they are the
  same sequence.
\<close>

theorem downstream_headers:
  assumes "on_fetch host_check rnd fetch request env = Inr (resp, calls)" and "call \<in> set calls"
  shows "dict_get (headers (snd call))
       = map_of (rev (claimed_headers (headers request)
                      @ (if list_ex (\<lambda>k. lower k = ''x-forwarded-for'')
                              (map fst (claimed_headers (headers request)))
                         then [] else [(''X-Forwarded-For'', generate_random_ip rnd)])))
     \<and> (distinct (map fst (claimed_headers (headers request))) \<longrightarrow>
          headers (snd call)
            = claimed_headers (headers request)
              @ (if list_ex (\<lambda>k. lower k = ''x-forwarded-for'')
                      (map fst (claimed_headers (headers request)))
                 then [] else [(''X-Forwarded-For'', generate_random_ip rnd)]))"
proof (cases "has_forwarded_for (sanitize_headers (headers request))")
  case True
  then have "headers (snd call) = sanitize_headers (headers request)"
    unfolding on_fetch_call_headers [OF assms] by (simp add: prepare_headers_def)
  with True show ?thesis
    using sanitize_headers_dict [of "headers request"] sanitize_headers_distinct [of "headers request"]
    by (simp add: has_forwarded_for_claimed dict_get_eq)
next
  case False
  then have sent: "headers (snd call)
      = sanitize_headers (headers request) @ [(''X-Forwarded-For'', generate_random_ip rnd)]"
    unfolding on_fetch_call_headers [OF assms] by (rule prepare_headers_synthesized)
  have "map_of (prepare_headers rnd (headers request))
      = (map_of (sanitize_headers (headers request)))(''X-Forwarded-For'' \<mapsto> generate_random_ip rnd)"
    using False by (simp add: prepare_headers_def map_of_dict_set)
  then have "dict_get (headers (snd call))
      = map_of (rev (claimed_headers (headers request) @ [(''X-Forwarded-For'', generate_random_ip rnd)]))"
    unfolding on_fetch_call_headers [OF assms] by (simp add: dict_get_eq sanitize_headers_dict)
  with False sent show ?thesis
    using sanitize_headers_distinct [of "headers request"]
    by (simp add: has_forwarded_for_claimed)
qed

theorem downstream_headers_witness:
  "(\<exists>resp call. on_fetch (\<lambda>_. True) (\<lambda>_. 0)
        (\<lambda>u i. Returns \<lparr>headers = [], body = Stream (), status = 200, statusText = Some ''OK''\<rparr>)
        \<lparr>headers = [(''Host'', ''worker.dev''), (''CF-Ray'', ''8f1''),
                    (''X-My-X-Forwarded-For'', ''1.2.3.4''), (''Accept'', ''*/*'')],
         body = NoBody, http_method = ''GET'', url = ''http://worker.dev/?url=https://example.com''\<rparr>
        Map.empty = Inr (resp, [call])
      \<and> headers (snd call) = [(''X-Forwarded-For'', ''1.2.3.4''), (''Accept'', ''*/*'')])
   \<and> (\<exists>resp call. on_fetch (\<lambda>_. True) (\<lambda>_. 0)
        (\<lambda>u i. Returns \<lparr>headers = [], body = Stream (), status = 200, statusText = Some ''OK''\<rparr>)
        \<lparr>headers = [(''cf-connecting-ip'', ''198.51.100.7''), (''Accept'', ''*/*'')],
         body = NoBody, http_method = ''GET'', url = ''http://worker.dev/?url=https://example.com''\<rparr>
        Map.empty = Inr (resp, [call])
      \<and> headers (snd call) = [(''Accept'', ''*/*''), (''X-Forwarded-For'', ''1.1.1.1'')])"
proof -
  let ?f = "\<lambda>(u :: string) (i :: unit init).
      Returns \<lparr>headers = [], body = Stream (), status = 200, statusText = Some ''OK''\<rparr>"
  let ?h1 = "[(''Host'', ''worker.dev''), (''CF-Ray'', ''8f1''),
              (''X-My-X-Forwarded-For'', ''1.2.3.4''), (''Accept'', ''*/*'')]"
  let ?h2 = "[(''cf-connecting-ip'', ''198.51.100.7''), (''Accept'', ''*/*'')]"
  let ?r1 = "\<lparr>headers = ?h1, body = NoBody :: unit content, http_method = ''GET'',
              url = ''http://worker.dev/?url=https://example.com''\<rparr>"
  let ?r2 = "\<lparr>headers = ?h2, body = NoBody :: unit content, http_method = ''GET'',
              url = ''http://worker.dev/?url=https://example.com''\<rparr>"
  let ?resp = "\<lparr>headers = [(''Access-Control-Allow-Origin'', ''*''),
                      (''Access-Control-Allow-Methods'', ''GET, POST, OPTIONS''),
                      (''Access-Control-Allow-Headers'', ''*'')],
           body = Stream (), status = 200, statusText = Some ''OK''\<rparr>"
  have o1: "on_fetch (\<lambda>_. True) (\<lambda>_. 0) ?f ?r1 Map.empty
      = Inr (?resp, [(''https://example.com'', init_opts (\<lambda>_. 0) ?r1)])"
    and o2: "on_fetch (\<lambda>_. True) (\<lambda>_. 0) ?f ?r2 Map.empty
      = Inr (?resp, [(''https://example.com'', init_opts (\<lambda>_. 0) ?r2)])"
    by code_simp+
  have c1: "claimed_headers ?h1 = [(''X-Forwarded-For'', ''1.2.3.4''), (''Accept'', ''*/*'')]"
    and c2: "claimed_headers ?h2 = [(''Accept'', ''*/*'')]"
    and ip: "generate_random_ip (\<lambda>_. 0) = ''1.1.1.1''"
    by code_simp+
  have d1: "distinct (map fst (claimed_headers (headers ?r1)))"
    and d2: "distinct (map fst (claimed_headers (headers ?r2)))"
    by (simp_all add: c1 c2)
  have x1: "list_ex (\<lambda>k. lower k = ''x-forwarded-for'') (map fst (claimed_headers ?h1))"
    and x2: "\<not> list_ex (\<lambda>k. lower k = ''x-forwarded-for'') (map fst (claimed_headers ?h2))"
    unfolding c1 c2 by code_simp+
  have m1: "(''https://example.com'', init_opts (\<lambda>_. 0) ?r1)
      \<in> set [(''https://example.com'', init_opts (\<lambda>_. 0) ?r1)]"
    and m2: "(''https://example.com'', init_opts (\<lambda>_. 0) ?r2)
      \<in> set [(''https://example.com'', init_opts (\<lambda>_. 0) ?r2)]"
    by simp_all
  have "headers (snd (''https://example.com'', init_opts (\<lambda>_. 0) ?r1))
      = [(''X-Forwarded-For'', ''1.2.3.4''), (''Accept'', ''*/*'')]"
    using downstream_headers [OF o1 m1, THEN conjunct2, THEN mp, OF d1] x1
    by (simp add: c1)
  moreover have "headers (snd (''https://example.com'', init_opts (\<lambda>_. 0) ?r2))
      = [(''Accept'', ''*/*''), (''X-Forwarded-For'', ''1.1.1.1'')]"
    using downstream_headers [OF o2 m2, THEN conjunct2, THEN mp, OF d2] x2
    by (simp add: c2 ip)
  ultimately show ?thesis using o1 o2 by blast
qed

text \<open>
  C5. Every response that the handler returns, the preflight response, a relayed
  response and the 400 and 502 error responses alike, has no header whose name is, in
  any case, \<open>Content-Encoding\<close>, \<open>Content-Length\<close> or \<open>Transfer-Encoding\<close>, and has the
  three \<open>Access-Control-Allow-*\<close> headers.
\<close>

theorem relayed_response_headers:
  assumes "on_fetch host_check rnd fetch request env = Inr (resp, calls)"
  shows "(\<forall>k \<in> set (dict_keys (headers resp)).
            lower k \<notin> {''content-encoding'', ''content-length'', ''transfer-encoding''})
         \<and> {''Access-Control-Allow-Origin'', ''Access-Control-Allow-Methods'',
             ''Access-Control-Allow-Headers''} \<subseteq> set (dict_keys (headers resp))"
  using assms
proof (cases rule: on_fetch_cases)
  case preflight
  then show ?thesis by (simp add: default_cors_keys)
next
  case (missing p t)
  then show ?thesis by (simp add: headers_create_error_response default_cors_keys)
next
  case (relayed p t r)
  then show ?thesis using process_response_headers_keys [of env "headers r"] by auto
next
  case (failed p t msg)
  then show ?thesis by (simp add: headers_create_error_response default_cors_keys)
qed

theorem relayed_response_headers_witness:
  "on_fetch (\<lambda>_. True) (\<lambda>_. 0)
     (\<lambda>u i. Returns \<lparr>headers = [(''Content-Length'', ''2''), (''X-Keep-This'', ''true'')],
                       body = Stream (), status = 200, statusText = Some ''OK''\<rparr>)
     \<lparr>headers = [], body = NoBody, http_method = ''GET'',
      url = ''http://worker.dev/?url=https://example.com''\<rparr>
     Map.empty
   = Inr (\<lparr>headers = [(''X-Keep-This'', ''true''), (''Access-Control-Allow-Origin'', ''*''),
                      (''Access-Control-Allow-Methods'', ''GET, POST, OPTIONS''),
                      (''Access-Control-Allow-Headers'', ''*'')],
           body = Stream (), status = 200, statusText = Some ''OK''\<rparr>,
          [(''https://example.com'',
            \<lparr>headers = [(''X-Forwarded-For'', ''1.1.1.1'')], body = NoBody, http_method = ''GET''\<rparr>)])
   \<and> list_all (\<lambda>k. lower k \<notin> {''content-encoding'', ''content-length'', ''transfer-encoding''})
        [''X-Keep-This'', ''Access-Control-Allow-Origin'',
         ''Access-Control-Allow-Methods'', ''Access-Control-Allow-Headers'']"
proof -
  have h: "on_fetch (\<lambda>_. True) (\<lambda>_. 0)
     (\<lambda>u i. Returns \<lparr>headers = [(''Content-Length'', ''2''), (''X-Keep-This'', ''true'')],
                       body = Stream (), status = 200, statusText = Some ''OK''\<rparr>)
     \<lparr>headers = [], body = NoBody, http_method = ''GET'',
      url = ''http://worker.dev/?url=https://example.com''\<rparr>
     Map.empty
   = Inr (\<lparr>headers = [(''X-Keep-This'', ''true''), (''Access-Control-Allow-Origin'', ''*''),
                      (''Access-Control-Allow-Methods'', ''GET, POST, OPTIONS''),
                      (''Access-Control-Allow-Headers'', ''*'')],
           body = Stream (), status = 200, statusText = Some ''OK''\<rparr>,
          [(''https://example.com'',
            \<lparr>headers = [(''X-Forwarded-For'', ''1.1.1.1'')], body = NoBody, http_method = ''GET''\<rparr>)])"
    by code_simp
  show ?thesis using h relayed_response_headers [OF h] by simp
qed




text \<open>
  C9. A request with method \<open>OPTIONS\<close> is answered at once with status 204 and the three
  CORS headers. The values of the CORS headers do not follow the claim on two inputs,
  which the handler is evaluated at here: on a relayed response with no bindings in the
  environment, \<open>Access-Control-Allow-Methods\<close> is \<open>GET, POST, OPTIONS\<close> and not the list of
  seven methods; and the preflight response has the three literals whatever
  \<open>CORS_ORIGIN\<close>, \<open>CORS_METHODS\<close> and \<open>CORS_ALLOWED_HEADERS\<close> are bound to.
\<close>

theorem cors_values_at_failing_inputs:
  "on_fetch (\<lambda>_. True) (\<lambda>_. 0)
     (\<lambda>u i. Returns \<lparr>headers = [], body = Stream (), status = 200, statusText = Some ''OK''\<rparr>)
     \<lparr>headers = [], body = NoBody, http_method = ''GET'',
      url = ''http://worker.dev/?url=https://example.com''\<rparr>
     Map.empty
   = Inr (\<lparr>headers = [(''Access-Control-Allow-Origin'', ''*''),
                      (''Access-Control-Allow-Methods'', ''GET, POST, OPTIONS''),
                      (''Access-Control-Allow-Headers'', ''*'')],
           body = Stream (), status = 200, statusText = Some ''OK''\<rparr>,
          [(''https://example.com'',
            \<lparr>headers = [(''X-Forwarded-For'', ''1.1.1.1'')], body = NoBody, http_method = ''GET''\<rparr>)])
   \<and> on_fetch (\<lambda>_. True) (\<lambda>_. 0)
     (\<lambda>u i. Returns \<lparr>headers = [], body = Stream (), status = 200, statusText = Some ''OK''\<rparr>)
     \<lparr>headers = [], body = NoBody, http_method = ''OPTIONS'', url = ''http://worker.dev/''\<rparr>
     [''CORS_ORIGIN'' \<mapsto> ''https://app.example'', ''CORS_METHODS'' \<mapsto> ''GET'',
      ''CORS_ALLOWED_HEADERS'' \<mapsto> ''Content-Type'']
   = Inr (\<lparr>headers = [(''Access-Control-Allow-Origin'', ''*''),
                      (''Access-Control-Allow-Methods'', ''GET, POST, PUT, DELETE, OPTIONS, PATCH, HEAD''),
                      (''Access-Control-Allow-Headers'', ''*'')],
           body = NoBody, status = 204, statusText = None\<rparr>, [])"
  by code_simp

end
